theory Spec2Isabelle
  imports Main
begin

section \<open>MiLi container utilities (\<^verbatim>\<open>include/container_utils.h\<close>)\<close>

text \<open>
  The header is a set of C++ templates over the standard containers. The containers
  themselves belong to the C++ standard library; they are represented here by what a
  traversal from \<^verbatim>\<open>begin()\<close> to \<^verbatim>\<open>end()\<close> visits:

  \<^item> \<^verbatim>\<open>std::vector<T>\<close> and \<^verbatim>\<open>std::list<T>\<close>: the list of their elements;
  \<^item> \<^verbatim>\<open>std::set<Key, Comp>\<close>: the list of its keys, in the order of \<^verbatim>\<open>Comp\<close>;
  \<^item> \<^verbatim>\<open>std::map<Key, T, Comp>\<close>: the list of its (key, mapped value) entries, in the
    order of \<^verbatim>\<open>Comp\<close> on the keys.

  An iterator is a position in that traversal: \<^verbatim>\<open>begin()\<close> is 0 and \<^verbatim>\<open>end()\<close> is the
  length. A returned reference \<^verbatim>\<open>*it\<close> is given by the position it designates. The
  template parameter \<^verbatim>\<open>Comp\<close> is passed as the function \<open>cmp\<close>; \<^verbatim>\<open>operator==\<close> on
  two values of the element type is HOL equality.

  The overloads for map and set take the lookup argument at a type \<^verbatim>\<open>Key2\<close> of its
  own. \<^verbatim>\<open>count\<close> and \<^verbatim>\<open>find\<close> of the container take a \<^verbatim>\<open>const Key&\<close>, so the
  argument is converted to \<^verbatim>\<open>Key\<close> on the way in: the conversion is passed as the
  function \<open>conv\<close> (the identity when \<^verbatim>\<open>Key2\<close> is \<^verbatim>\<open>Key\<close>). \<^verbatim>\<open>std::find\<close>
  converts nothing: it compares each element with the argument as it is, by the
  \<^verbatim>\<open>operator==\<close> of the two types, passed as \<open>eq\<close> where they differ.
\<close>

subsection \<open>Exceptions and pointers\<close>

text \<open>\<^verbatim>\<open>struct ElementNotFound : std::exception{};\<close> A function declared
  \<^verbatim>\<open>throw(ElementNotFound)\<close> returns \<open>Inl ElementNotFound\<close> when it throws.\<close>

datatype exn = ElementNotFound

text \<open>A pointer \<^verbatim>\<open>T*\<close>: the null pointer or the address of an object.\<close>

datatype ptr = NULL | Addr nat

subsection \<open>The standard library primitives the header calls\<close>

text \<open>\<^verbatim>\<open>std::find(first, last, value)\<close> over a whole container: the first position whose
  element compares equal to the value under \<open>eq\<close>, or the end position.\<close>

fun std_find_by :: "('a \<Rightarrow> 'b \<Rightarrow> bool) \<Rightarrow> 'a list \<Rightarrow> 'b \<Rightarrow> nat" where
  "std_find_by eq [] v = 0"
| "std_find_by eq (x # xs) v = (if eq x v then 0 else Suc (std_find_by eq xs v))"

definition std_find :: "'a list \<Rightarrow> 'a \<Rightarrow> nat" where
  "std_find c v = std_find_by (=) c v"

text \<open>\<^verbatim>\<open>push_back\<close> of a vector or a list.\<close>

definition push_back :: "'a list \<Rightarrow> 'a \<Rightarrow> 'a list" where
  "push_back c x = c @ [x]"

text \<open>\<^verbatim>\<open>back()\<close> of a vector or list: the reference to its last element. On an
  empty container the call is undefined; the header calls it only after an insertion.\<close>

definition container_back :: "'a list \<Rightarrow> nat" where
  "container_back c = length c - 1"

text \<open>
  The associative containers keep their keys in the order of \<open>cmp\<close>; two keys are
  equivalent when neither precedes the other. Lookup descends to the first key that does
  not precede the argument (\<^verbatim>\<open>lower_bound\<close>) and then makes one more comparison, as
  \<^verbatim>\<open>find\<close> of the library's search tree does; \<^verbatim>\<open>count\<close> of a container with
  unique keys is 0 or 1 accordingly.
\<close>

definition equivalent :: "('k \<Rightarrow> 'k \<Rightarrow> bool) \<Rightarrow> 'k \<Rightarrow> 'k \<Rightarrow> bool" where
  "equivalent cmp a b = (\<not> cmp a b \<and> \<not> cmp b a)"

fun lower_bound :: "('k \<Rightarrow> 'k \<Rightarrow> bool) \<Rightarrow> 'k list \<Rightarrow> 'k \<Rightarrow> nat" where
  "lower_bound cmp [] k = 0"
| "lower_bound cmp (x # xs) k = (if cmp x k then Suc (lower_bound cmp xs k) else 0)"

definition tree_find :: "('k \<Rightarrow> 'k \<Rightarrow> bool) \<Rightarrow> 'k list \<Rightarrow> 'k \<Rightarrow> nat" where
  "tree_find cmp keys k =
     (let j = lower_bound cmp keys k
      in if j = length keys \<or> cmp k (keys ! j) then length keys else j)"

definition set_find :: "('k \<Rightarrow> 'k \<Rightarrow> bool) \<Rightarrow> 'k list \<Rightarrow> 'k \<Rightarrow> nat" where
  "set_find cmp s k = tree_find cmp s k"

definition set_count :: "('k \<Rightarrow> 'k \<Rightarrow> bool) \<Rightarrow> 'k list \<Rightarrow> 'k \<Rightarrow> nat" where
  "set_count cmp s k = (if set_find cmp s k = length s then 0 else 1)"

definition map_find :: "('k \<Rightarrow> 'k \<Rightarrow> bool) \<Rightarrow> ('k \<times> 'v) list \<Rightarrow> 'k \<Rightarrow> nat" where
  "map_find cmp m k = tree_find cmp (map fst m) k"

definition map_count :: "('k \<Rightarrow> 'k \<Rightarrow> bool) \<Rightarrow> ('k \<times> 'v) list \<Rightarrow> 'k \<Rightarrow> nat" where
  "map_count cmp m k = (if map_find cmp m k = length m then 0 else 1)"

text \<open>\<^verbatim>\<open>std::set::insert\<close>: the key goes in front of the first key it precedes, unless
  an equivalent key is met on the way, in which case the set is left as it is.\<close>

fun set_insert :: "('k \<Rightarrow> 'k \<Rightarrow> bool) \<Rightarrow> 'k list \<Rightarrow> 'k \<Rightarrow> 'k list" where
  "set_insert cmp [] k = [k]"
| "set_insert cmp (x # xs) k =
     (if cmp k x then k # x # xs
      else if cmp x k then x # set_insert cmp xs k
      else x # xs)"

text \<open>The library requires \<^verbatim>\<open>Comp\<close> to be a strict weak ordering: irreflexive,
  transitive, and with a transitive equivalence. The properties below use only the
  first two. The invariant of a set or map: the keys are strictly increasing.\<close>

definition strict_order :: "('k \<Rightarrow> 'k \<Rightarrow> bool) \<Rightarrow> bool" where
  "strict_order cmp = (irreflp cmp \<and> transp cmp)"

definition strict_weak_order :: "('k \<Rightarrow> 'k \<Rightarrow> bool) \<Rightarrow> bool" where
  "strict_weak_order cmp =
     (strict_order cmp
      \<and> (\<forall>a b c. equivalent cmp a b \<and> equivalent cmp b c \<longrightarrow> equivalent cmp a c))"

definition set_inv :: "('k \<Rightarrow> 'k \<Rightarrow> bool) \<Rightarrow> 'k list \<Rightarrow> bool" where
  "set_inv cmp s = sorted_wrt cmp s"

definition map_inv :: "('k \<Rightarrow> 'k \<Rightarrow> bool) \<Rightarrow> ('k \<times> 'v) list \<Rightarrow> bool" where
  "map_inv cmp m = sorted_wrt cmp (map fst m)"

text \<open>\<^verbatim>\<open>Comp\<close> agrees with \<^verbatim>\<open>operator==\<close>: two keys are equivalent exactly when
  they are equal.\<close>

definition cmp_agrees_eq :: "('k \<Rightarrow> 'k \<Rightarrow> bool) \<Rightarrow> bool" where
  "cmp_agrees_eq cmp = (\<forall>a b. equivalent cmp a b = (a = b))"

subsection \<open>find, throwing versions\<close>

text \<open>
  \<^verbatim>\<open>template <class Container, class Element>
  Element& find(Container& c, const Element& element) throw(ElementNotFound)\<close>
  and its \<^verbatim>\<open>const\<close> overload, which has the same body. The result \<open>Inr it\<close> is the
  reference \<^verbatim>\<open>*it\<close>.
\<close>

definition find_generic :: "'a list \<Rightarrow> 'a \<Rightarrow> exn + nat" where
  "find_generic c element =
     (let it = std_find c element
      in if it = length c then Inl ElementNotFound else Inr it)"

text \<open>
  The same template where \<^verbatim>\<open>Element\<close> is not the container's value type (a set of
  \<^verbatim>\<open>int\<close> searched for a \<^verbatim>\<open>long long\<close>): \<^verbatim>\<open>std::find\<close> compares each element
  with the unconverted argument by the \<^verbatim>\<open>operator==\<close> of the two types.
\<close>

definition find_generic_by :: "('a \<Rightarrow> 'b \<Rightarrow> bool) \<Rightarrow> 'a list \<Rightarrow> 'b \<Rightarrow> exn + nat" where
  "find_generic_by eq c element =
     (let it = std_find_by eq c element
      in if it = length c then Inl ElementNotFound else Inr it)"

text \<open>
  \<^verbatim>\<open>T& find(std::map<Key, T, Comp, Alloc>& m, const Key2& key) throw(ElementNotFound)\<close>
  and its \<^verbatim>\<open>const\<close> overload. \<^verbatim>\<open>m.find(key)\<close> converts the \<^verbatim>\<open>Key2\<close> argument
  to \<^verbatim>\<open>Key\<close>. The result \<open>Inr it\<close> is the reference \<^verbatim>\<open>it->second\<close>, the mapped
  value of the entry at \<open>it\<close>.
\<close>

definition find_map ::
  "('k \<Rightarrow> 'k \<Rightarrow> bool) \<Rightarrow> ('k2 \<Rightarrow> 'k) \<Rightarrow> ('k \<times> 'v) list \<Rightarrow> 'k2 \<Rightarrow> exn + nat" where
  "find_map cmp conv m key =
     (let it = map_find cmp m (conv key)
      in if it = length m then Inl ElementNotFound else Inr it)"

subsection \<open>find, nothrow versions\<close>

text \<open>
  \<^verbatim>\<open>template <class Container, class Element>
  Element* find(Container& c, const Element& element, const std::nothrow_t&)\<close>
  ends in \<^verbatim>\<open>return *it;\<close>: the element itself is returned where an
  \<^verbatim>\<open>Element*\<close> is expected. The body is well-formed only for a container whose
  elements are pointers, compared with an \<^verbatim>\<open>Element\<close> by an \<^verbatim>\<open>operator==\<close> of
  the user's, here \<open>eq\<close>.
\<close>

definition find_nothrow :: "(ptr \<Rightarrow> 'e \<Rightarrow> bool) \<Rightarrow> ptr list \<Rightarrow> 'e \<Rightarrow> ptr" where
  "find_nothrow eq c element =
     (let it = std_find_by eq c element
      in if it = length c then NULL else c ! it)"

text \<open>
  \<^verbatim>\<open>T* find(std::map<Key, T*, Comp, Alloc>& m, const Key2& key, const std::nothrow_t&)\<close>
  and its \<^verbatim>\<open>const\<close> overload: the mapped values are pointers, \<^verbatim>\<open>m.find(key)\<close>
  converts the \<^verbatim>\<open>Key2\<close> argument to \<^verbatim>\<open>Key\<close>, and the result is
  \<^verbatim>\<open>it->second\<close>, the stored pointer.
\<close>

definition find_map_nothrow ::
  "('k \<Rightarrow> 'k \<Rightarrow> bool) \<Rightarrow> ('k2 \<Rightarrow> 'k) \<Rightarrow> ('k \<times> ptr) list \<Rightarrow> 'k2 \<Rightarrow> ptr" where
  "find_map_nothrow cmp conv m key =
     (let it = map_find cmp m (conv key)
      in if it = length m then NULL else snd (m ! it))"

subsection \<open>contains\<close>

text \<open>The generic form: \<^verbatim>\<open>try { find(c, element); return true; }
  catch(ElementNotFound) { return false; }\<close> \<^verbatim>\<open>Element\<close> is any type that the
  elements can be compared with.\<close>

definition contains_generic :: "('a \<Rightarrow> 'b \<Rightarrow> bool) \<Rightarrow> 'a list \<Rightarrow> 'b \<Rightarrow> bool" where
  "contains_generic eq c element =
     (case find_generic_by eq c element of Inr r \<Rightarrow> True | Inl ElementNotFound \<Rightarrow> False)"

text \<open>The specializations for vector and list take the container and the element at one
  \<^verbatim>\<open>Element\<close> type. Those for map and set take a \<^verbatim>\<open>const Key2& key\<close>, which
  \<^verbatim>\<open>count\<close> converts to \<^verbatim>\<open>Key\<close>.\<close>

definition contains_vector :: "'a list \<Rightarrow> 'a \<Rightarrow> bool" where
  "contains_vector v element = (std_find v element \<noteq> length v)"

definition contains_list :: "'a list \<Rightarrow> 'a \<Rightarrow> bool" where
  "contains_list l element = (std_find l element \<noteq> length l)"

definition contains_map ::
  "('k \<Rightarrow> 'k \<Rightarrow> bool) \<Rightarrow> ('k2 \<Rightarrow> 'k) \<Rightarrow> ('k \<times> 'v) list \<Rightarrow> 'k2 \<Rightarrow> bool" where
  "contains_map cmp conv m key = (map_count cmp m (conv key) > 0)"

definition contains_set ::
  "('k \<Rightarrow> 'k \<Rightarrow> bool) \<Rightarrow> ('k2 \<Rightarrow> 'k) \<Rightarrow> 'k list \<Rightarrow> 'k2 \<Rightarrow> bool" where
  "contains_set cmp conv s key = (set_count cmp s (conv key) > 0)"

text \<open>
  An instance of a converting lookup argument, for the examples: keys of type
  \<^verbatim>\<open>int\<close> (32 bits) looked up with a \<^verbatim>\<open>long long\<close>. The conversion keeps the low
  32 bits; \<^verbatim>\<open>operator==\<close> between an \<^verbatim>\<open>int\<close> and a \<^verbatim>\<open>long long\<close> compares
  the two values, which is HOL equality on the integers.
\<close>

definition long_long_to_int :: "int \<Rightarrow> int" where
  "long_long_to_int k = (k + 2147483648) mod 4294967296 - 2147483648"

subsection \<open>Insertion utilities\<close>

text \<open>\<^verbatim>\<open>insert_into\<close> for vectors and lists, and its overload for sets.\<close>

definition insert_into :: "'a list \<Rightarrow> 'a \<Rightarrow> 'a list" where
  "insert_into cont element = push_back cont element"

definition insert_into_set :: "('k \<Rightarrow> 'k \<Rightarrow> bool) \<Rightarrow> 'k list \<Rightarrow> 'k \<Rightarrow> 'k list" where
  "insert_into_set cmp cont element = set_insert cmp cont element"

text \<open>
  \<^verbatim>\<open>ContainerAdapterImpl<T, Impl>::insert\<close>: \<^verbatim>\<open>insert_into(container, element);
  return container.back();\<close> The adapter holds a reference to the container; the
  function returns the container after the call together with the returned reference.
  \<^verbatim>\<open>back()\<close> is a member of vector and list only, so \<open>Impl\<close> is a sequence.
\<close>

definition ContainerAdapterImpl_insert :: "'a list \<Rightarrow> 'a \<Rightarrow> 'a list \<times> nat" where
  "ContainerAdapterImpl_insert container element =
     (let container' = insert_into container element
      in (container', container_back container'))"

subsection \<open>copy_container\<close>

text \<open>\<^verbatim>\<open>std::copy(c1.begin(), c1.end(), std::back_insert_iterator<C2>(c2))\<close>: every
  element of the source, in traversal order, is handed to \<^verbatim>\<open>c2.push_back\<close>.\<close>

fun std_copy_back_insert :: "'a list \<Rightarrow> 'a list \<Rightarrow> 'a list" where
  "std_copy_back_insert [] c2 = c2"
| "std_copy_back_insert (x # xs) c2 = std_copy_back_insert xs (push_back c2 x)"

definition copy_container :: "'a list \<Rightarrow> 'a list \<Rightarrow> 'a list" where
  "copy_container c1 c2 = std_copy_back_insert c1 c2"

subsection \<open>Autonomous iterators\<close>

text \<open>\<^verbatim>\<open>AutonomousIterator<T>\<close> holds the members \<^verbatim>\<open>_current\<close> and \<^verbatim>\<open>_end\<close>, two
  positions. Nothing checks a position against the range: \<^verbatim>\<open>++\<close> and \<^verbatim>\<open>--\<close> move
  it by one step whatever it is.\<close>

record AutonomousIterator =
  it_current :: int
  it_end :: int

definition AutonomousIterator_init :: "int \<Rightarrow> int \<Rightarrow> AutonomousIterator" where
  "AutonomousIterator_init begin_pos end_pos = \<lparr>it_current = begin_pos, it_end = end_pos\<rparr>"

definition pre_increment :: "AutonomousIterator \<Rightarrow> AutonomousIterator" where
  "pre_increment it = it\<lparr>it_current := it_current it + 1\<rparr>"

text \<open>\<^verbatim>\<open>operator++(int)\<close>: the returned copy, and the iterator after the call.\<close>

definition post_increment :: "AutonomousIterator \<Rightarrow> AutonomousIterator \<times> AutonomousIterator" where
  "post_increment it = (let ret = it in (ret, pre_increment it))"

definition pre_decrement :: "AutonomousIterator \<Rightarrow> AutonomousIterator" where
  "pre_decrement it = it\<lparr>it_current := it_current it - 1\<rparr>"

definition post_decrement :: "AutonomousIterator \<Rightarrow> AutonomousIterator \<times> AutonomousIterator" where
  "post_decrement it = (let ret = it in (ret, pre_decrement it))"

definition iterator_equal :: "AutonomousIterator \<Rightarrow> AutonomousIterator \<Rightarrow> bool" where
  "iterator_equal it other = (it_current it = it_current other)"

definition iterator_end :: "AutonomousIterator \<Rightarrow> bool" where
  "iterator_end it = (it_current it = it_end it)"

section \<open>Properties\<close>

subsection \<open>Facts about the library primitives\<close>

lemma std_find_by_le: "std_find_by eq xs v \<le> length xs"
  by (induction xs) auto

lemma std_find_by_end: "(std_find_by eq xs v = length xs) = (\<forall>x \<in> set xs. \<not> eq x v)"
proof (induction xs)
  case Nil
  show ?case by simp
next
  case (Cons x xs)
  have "std_find_by eq xs v \<le> length xs" by (rule std_find_by_le)
  with Cons show ?case by auto
qed

lemma std_find_by_hit:
  "std_find_by eq xs v < length xs \<Longrightarrow> eq (xs ! std_find_by eq xs v) v"
  by (induction xs) (auto split: if_splits)

lemma std_find_by_first: "j < std_find_by eq xs v \<Longrightarrow> \<not> eq (xs ! j) v"
proof (induction xs arbitrary: j)
  case Nil
  then show ?case by simp
next
  case (Cons x xs)
  then show ?case by (cases j) (auto split: if_splits)
qed

lemma std_copy_back_insert_append: "std_copy_back_insert c1 c2 = c2 @ c1"
  by (induction c1 arbitrary: c2) (simp_all add: push_back_def)

text \<open>Lookup in a set or map: where the search ends.\<close>

lemma tree_find_le: "tree_find cmp keys k \<le> length keys"
proof -
  have "lower_bound cmp keys k \<le> length keys" by (induction keys) auto
  then show ?thesis by (auto simp: tree_find_def Let_def)
qed

lemma tree_find_Cons:
  "tree_find cmp (x # xs) k =
     (if cmp x k then Suc (tree_find cmp xs k)
      else if cmp k x then Suc (length xs) else 0)"
  by (auto simp: tree_find_def Let_def)

lemma tree_find_Nil: "tree_find cmp [] k = 0"
  by (simp add: tree_find_def)

lemma tree_find_hit:
  "tree_find cmp keys k < length keys \<Longrightarrow> equivalent cmp (keys ! tree_find cmp keys k) k"
proof (induction keys)
  case Nil
  then show ?case by simp
next
  case (Cons x xs)
  then show ?case by (auto simp: tree_find_Cons equivalent_def split: if_splits)
qed

lemma tree_find_found_iff:
  assumes "strict_order cmp" "sorted_wrt cmp keys"
  shows "(tree_find cmp keys k < length keys) = (\<exists>x \<in> set keys. equivalent cmp x k)"
  using assms(2)
proof (induction keys)
  case Nil
  then show ?case by (simp add: tree_find_Nil)
next
  case (Cons x xs)
  have tr: "\<And>a b c. cmp a b \<Longrightarrow> cmp b c \<Longrightarrow> cmp a c"
    using assms(1) by (auto simp: strict_order_def transp_def)
  have irr: "\<And>a. \<not> cmp a a"
    using assms(1) by (auto simp: strict_order_def irreflp_def)
  from Cons.prems have sx: "\<forall>y \<in> set xs. cmp x y" and ss: "sorted_wrt cmp xs" by auto
  have IH: "(tree_find cmp xs k < length xs) = (\<exists>x \<in> set xs. equivalent cmp x k)"
    using Cons.IH ss by simp
  show ?case
  proof (cases "cmp x k")
    case True
    then have "\<not> equivalent cmp x k" by (simp add: equivalent_def)
    with True IH show ?thesis by (simp add: tree_find_Cons)
  next
    case nxk: False
    show ?thesis
    proof (cases "cmp k x")
      case True
      have "\<forall>y \<in> set xs. cmp k y" using sx True tr by blast
      then have "\<not> (\<exists>y \<in> set xs. equivalent cmp y k)" by (auto simp: equivalent_def)
      moreover have "\<not> equivalent cmp x k" using True by (simp add: equivalent_def)
      ultimately show ?thesis using nxk True by (simp add: tree_find_Cons)
    next
      case False
      then have "equivalent cmp x k" using nxk by (simp add: equivalent_def)
      then show ?thesis using nxk False by (auto simp: tree_find_Cons)
    qed
  qed
qed

lemma tree_find_eq_std_find:
  assumes "strict_order cmp" "cmp_agrees_eq cmp" "sorted_wrt cmp keys"
  shows "tree_find cmp keys k = std_find keys k"
  using assms(3)
proof (induction keys)
  case Nil
  then show ?case by (simp add: tree_find_Nil std_find_def)
next
  case (Cons x xs)
  have tr: "\<And>a b c. cmp a b \<Longrightarrow> cmp b c \<Longrightarrow> cmp a c"
    using assms(1) by (auto simp: strict_order_def transp_def)
  have irr: "\<And>a. \<not> cmp a a"
    using assms(1) by (auto simp: strict_order_def irreflp_def)
  have ag: "\<And>a b. (\<not> cmp a b \<and> \<not> cmp b a) = (a = b)"
    using assms(2) by (simp add: cmp_agrees_eq_def equivalent_def)
  from Cons.prems have sx: "\<forall>y \<in> set xs. cmp x y" and ss: "sorted_wrt cmp xs" by auto
  have IH: "tree_find cmp xs k = std_find xs k" using Cons.IH ss by simp
  show ?case
  proof (cases "cmp x k")
    case True
    then have "x \<noteq> k" using irr by auto
    with True IH show ?thesis by (simp add: tree_find_Cons std_find_def)
  next
    case nxk: False
    show ?thesis
    proof (cases "cmp k x")
      case True
      have "\<forall>y \<in> set xs. cmp k y" using sx True tr by blast
      then have "\<forall>y \<in> set xs. \<not> (y = k)" using irr by auto
      then have "std_find_by (=) xs k = length xs" by (simp add: std_find_by_end)
      moreover have "x \<noteq> k" using True irr by auto
      ultimately show ?thesis using nxk True by (simp add: tree_find_Cons std_find_def)
    next
      case False
      then have "x = k" using nxk ag by blast
      then show ?thesis using nxk False by (simp add: tree_find_Cons std_find_def)
    qed
  qed
qed

lemma set_insert_found:
  assumes "strict_order cmp"
  shows "tree_find cmp s k \<noteq> length s \<Longrightarrow> set_insert cmp s k = s"
proof (induction s)
  case Nil
  then show ?case by (simp add: tree_find_Nil)
next
  case (Cons x xs)
  have asym: "\<And>a b. cmp a b \<Longrightarrow> \<not> cmp b a"
    using assms by (auto simp: strict_order_def transp_def irreflp_def)
  from Cons show ?case
    by (auto simp: tree_find_Cons dest: asym split: if_splits)
qed

lemma set_insert_fresh_length:
  assumes "strict_order cmp"
  shows "tree_find cmp s k = length s \<Longrightarrow> length (set_insert cmp s k) = Suc (length s)"
proof (induction s)
  case Nil
  then show ?case by simp
next
  case (Cons x xs)
  have asym: "\<And>a b. cmp a b \<Longrightarrow> \<not> cmp b a"
    using assms by (auto simp: strict_order_def transp_def irreflp_def)
  from Cons show ?case
    by (auto simp: tree_find_Cons dest: asym split: if_splits)
qed

lemma set_insert_fresh_set:
  assumes "strict_order cmp"
  shows "tree_find cmp s k = length s \<Longrightarrow> set (set_insert cmp s k) = insert k (set s)"
proof (induction s)
  case Nil
  then show ?case by simp
next
  case (Cons x xs)
  have asym: "\<And>a b. cmp a b \<Longrightarrow> \<not> cmp b a"
    using assms by (auto simp: strict_order_def transp_def irreflp_def)
  from Cons show ?case
    by (auto simp: tree_find_Cons dest: asym split: if_splits)
qed

lemma set_insert_subset: "set (set_insert cmp s k) \<subseteq> insert k (set s)"
  by (induction s) auto

lemma set_insert_sorted:
  assumes "strict_order cmp"
  shows "sorted_wrt cmp s \<Longrightarrow> sorted_wrt cmp (set_insert cmp s k)"
proof (induction s)
  case Nil
  then show ?case by simp
next
  case (Cons x xs)
  have tr: "\<And>a b c. cmp a b \<Longrightarrow> cmp b c \<Longrightarrow> cmp a c"
    using assms(1) by (auto simp: strict_order_def transp_def)
  from Cons.prems have sx: "\<forall>y \<in> set xs. cmp x y" and ss: "sorted_wrt cmp xs" by auto
  show ?case
  proof (cases "cmp k x")
    case True
    then have "\<forall>y \<in> set xs. cmp k y" using sx tr by blast
    with True Cons.prems show ?thesis by simp
  next
    case nkx: False
    show ?thesis
    proof (cases "cmp x k")
      case True
      have "\<forall>y \<in> set (set_insert cmp xs k). cmp x y"
        using set_insert_subset [of cmp xs k] sx True by auto
      with True nkx Cons.IH ss show ?thesis by simp
    next
      case False
      with nkx Cons.prems show ?thesis by simp
    qed
  qed
qed

lemma set_insert_then_found:
  assumes "strict_order cmp"
  shows "tree_find cmp (set_insert cmp s k) k \<noteq> length (set_insert cmp s k)"
proof (induction s)
  case Nil
  have "\<not> cmp k k" using assms by (auto simp: strict_order_def irreflp_def)
  then show ?case by (simp add: tree_find_Cons)
next
  case (Cons x xs)
  have irr: "\<not> cmp k k" using assms by (auto simp: strict_order_def irreflp_def)
  have asym: "\<And>a b. cmp a b \<Longrightarrow> \<not> cmp b a"
    using assms by (auto simp: strict_order_def transp_def irreflp_def)
  from Cons irr show ?case
    by (auto simp: tree_find_Cons dest: asym split: if_splits)
qed

text \<open>The throwing find and the contains overloads, by where the search ends.\<close>

lemma find_generic_succeeds_iff:
  "(find_generic c element \<noteq> Inl ElementNotFound) = (std_find c element \<noteq> length c)"
  by (simp add: find_generic_def Let_def)

lemma find_generic_by_succeeds_iff:
  "(find_generic_by eq c element \<noteq> Inl ElementNotFound)
     = (std_find_by eq c element \<noteq> length c)"
  by (simp add: find_generic_by_def Let_def)

lemma find_generic_by_equality: "find_generic_by (=) c element = find_generic c element"
  by (simp add: find_generic_by_def find_generic_def std_find_def)

lemma contains_generic_iff:
  "contains_generic eq c element = (std_find_by eq c element \<noteq> length c)"
  by (simp add: contains_generic_def find_generic_by_def Let_def)

lemma contains_set_iff:
  "contains_set cmp conv s key = (tree_find cmp s (conv key) \<noteq> length s)"
  by (simp add: contains_set_def set_count_def set_find_def)

lemma contains_map_iff:
  "contains_map cmp conv m key = (map_find cmp m (conv key) \<noteq> length m)"
  by (simp add: contains_map_def map_count_def)

text \<open>A key of a set or map is found at its own position.\<close>

lemma tree_find_member:
  assumes "strict_order cmp"
  shows "sorted_wrt cmp keys \<Longrightarrow> i < length keys \<Longrightarrow> tree_find cmp keys (keys ! i) = i"
proof (induction keys arbitrary: i)
  case Nil
  then show ?case by simp
next
  case (Cons x xs)
  have irr: "\<And>a. \<not> cmp a a" using assms by (auto simp: strict_order_def irreflp_def)
  show ?case
  proof (cases i)
    case 0
    with irr show ?thesis by (simp add: tree_find_Cons)
  next
    case (Suc j)
    with Cons.prems have j: "j < length xs" by simp
    then have "xs ! j \<in> set xs" by simp
    with Cons.prems have lt: "cmp x (xs ! j)" by simp
    from Cons.prems have "sorted_wrt cmp xs" by simp
    with Cons.IH j have "tree_find cmp xs (xs ! j) = j" by simp
    with lt Suc show ?thesis by (simp add: tree_find_Cons)
  qed
qed

text \<open>The scan with the unconverted argument against the lookup of the converted one.\<close>

lemma std_find_by_cong:
  "(\<forall>x \<in> set xs. eq x v = eq' x v') \<Longrightarrow> std_find_by eq xs v = std_find_by eq' xs v'"
  by (induction xs) auto

lemma scan_hit_native:
  assumes "strict_order cmp" and "sorted_wrt cmp keys"
    and "\<forall>x. eq x key \<longrightarrow> x = conv key"
    and "std_find_by eq keys key \<noteq> length keys"
  shows "tree_find cmp keys (conv key) = std_find_by eq keys key"
proof -
  let ?it = "std_find_by eq keys key"
  from assms(4) std_find_by_le [of eq keys key] have lt: "?it < length keys" by simp
  then have "eq (keys ! ?it) key" by (rule std_find_by_hit)
  with assms(3) have "keys ! ?it = conv key" by blast
  with tree_find_member [OF assms(1) assms(2) lt] show ?thesis by simp
qed

lemma scan_eq_native:
  assumes "strict_order cmp" and "cmp_agrees_eq cmp" and "sorted_wrt cmp keys"
    and "\<forall>x. eq x key = (x = conv key)"
  shows "tree_find cmp keys (conv key) = std_find_by eq keys key"
proof -
  have "std_find_by eq keys key = std_find_by (=) keys (conv key)"
    using assms(4) by (intro std_find_by_cong) simp
  also have "\<dots> = std_find keys (conv key)" by (simp add: std_find_def)
  also have "\<dots> = tree_find cmp keys (conv key)"
    using assms(1-3) by (simp add: tree_find_eq_std_find)
  finally show ?thesis by simp
qed

text \<open>An entry of a map is the one its lookup finds.\<close>

lemma map_find_entry:
  assumes "strict_order cmp"
  shows "sorted_wrt cmp (map fst m) \<Longrightarrow> (key, v) \<in> set m \<Longrightarrow>
         map_find cmp m key < length m \<and> m ! map_find cmp m key = (key, v)"
proof (induction m)
  case Nil
  then show ?case by simp
next
  case (Cons e m)
  have irr: "\<not> cmp key key" using assms by (auto simp: strict_order_def irreflp_def)
  show ?case
  proof (cases "e = (key, v)")
    case True
    with irr show ?thesis by (simp add: map_find_def tree_find_Cons)
  next
    case False
    with Cons.prems have mem: "(key, v) \<in> set m" by simp
    with Cons.prems have lt: "cmp (fst e) key" by force
    from Cons.prems have "sorted_wrt cmp (map fst m)" by simp
    with Cons.IH mem
    have "map_find cmp m key < length m \<and> m ! map_find cmp m key = (key, v)" by simp
    with lt show ?thesis by (simp add: map_find_def tree_find_Cons)
  qed
qed

text \<open>Comparators used in the examples: the order of the integers, which agrees with
  equality, and the order by absolute value, under which \<open>1\<close> and \<open>- 1\<close> are equivalent.\<close>

lemma strict_order_less_int: "strict_order ((<) :: int \<Rightarrow> int \<Rightarrow> bool)"
  by (auto simp: strict_order_def irreflp_def transp_def)

lemma cmp_agrees_eq_less_int: "cmp_agrees_eq ((<) :: int \<Rightarrow> int \<Rightarrow> bool)"
  by (auto simp: cmp_agrees_eq_def equivalent_def)

lemma strict_weak_order_less_int: "strict_weak_order ((<) :: int \<Rightarrow> int \<Rightarrow> bool)"
  by (auto simp: strict_weak_order_def strict_order_def irreflp_def transp_def equivalent_def)

lemma strict_weak_order_abs_less: "strict_weak_order (\<lambda>a b :: int. \<bar>a\<bar> < \<bar>b\<bar>)"
  by (auto simp: strict_weak_order_def strict_order_def irreflp_def transp_def equivalent_def)

text \<open>Repeated increments of an autonomous iterator.\<close>

lemma funpow_pre_increment:
  "(pre_increment ^^ k) it = it\<lparr>it_current := it_current it + int k\<rparr>"
  by (induction k) (simp_all add: pre_increment_def)

subsection \<open>contains and the throwing find\<close>

text \<open>
  C1, as the code has it. \<open>contains\<close> returns a truth value and never throws: the generic
  form catches \<open>ElementNotFound\<close>, the overloads call no throwing function. For the
  generic form (at any element type), for a vector, for a list and for a map (where both
  sides look the converted key up in the map), \<open>contains\<close> is true exactly when the
  throwing \<open>find\<close> on the same arguments does not throw. For a set, \<open>contains\<close> asks
  \<^verbatim>\<open>count\<close>, which converts the argument to \<^verbatim>\<open>Key\<close> and compares with \<^verbatim>\<open>Comp\<close>,
  while \<open>find\<close> on a set is the generic scan, which compares each element with the
  unconverted argument by \<^verbatim>\<open>operator==\<close>. For every strict order \<^verbatim>\<open>Comp\<close>: when
  \<open>find\<close> succeeds, \<open>contains\<close> is true, provided that an element which compares equal
  to the argument is the converted argument (as it is when the argument has the key
  type). Conversely, when \<open>contains\<close> is true, \<open>find\<close> succeeds, provided that
  \<^verbatim>\<open>Comp\<close> holds two keys equivalent exactly when they are equal and that the converted
  argument compares equal to the argument.
\<close>

theorem contains_iff_find_succeeds:
  "contains_generic eq c element = (find_generic_by eq c element \<noteq> Inl ElementNotFound)
   \<and> contains_vector v e = (find_generic v e \<noteq> Inl ElementNotFound)
   \<and> contains_list v e = (find_generic v e \<noteq> Inl ElementNotFound)
   \<and> contains_map cmp conv m key = (find_map cmp conv m key \<noteq> Inl ElementNotFound)
   \<and> (strict_order cmp' \<and> set_inv cmp' s \<and> (\<forall>x. eq' x key' \<longrightarrow> x = conv' key')
        \<and> find_generic_by eq' s key' \<noteq> Inl ElementNotFound
        \<longrightarrow> contains_set cmp' conv' s key')
   \<and> (strict_order cmp' \<and> set_inv cmp' s \<and> cmp_agrees_eq cmp' \<and> eq' (conv' key') key'
        \<and> contains_set cmp' conv' s key'
        \<longrightarrow> find_generic_by eq' s key' \<noteq> Inl ElementNotFound)"
proof (intro conjI impI)
  show "contains_generic eq c element = (find_generic_by eq c element \<noteq> Inl ElementNotFound)"
    by (simp add: contains_generic_iff find_generic_by_succeeds_iff)
  show "contains_vector v e = (find_generic v e \<noteq> Inl ElementNotFound)"
    by (simp add: contains_vector_def find_generic_succeeds_iff)
  show "contains_list v e = (find_generic v e \<noteq> Inl ElementNotFound)"
    by (simp add: contains_list_def find_generic_succeeds_iff)
  show "contains_map cmp conv m key = (find_map cmp conv m key \<noteq> Inl ElementNotFound)"
    by (simp add: contains_map_iff find_map_def Let_def)
next
  assume h: "strict_order cmp' \<and> set_inv cmp' s \<and> (\<forall>x. eq' x key' \<longrightarrow> x = conv' key')
        \<and> find_generic_by eq' s key' \<noteq> Inl ElementNotFound"
  then have hit: "std_find_by eq' s key' \<noteq> length s"
    by (simp add: find_generic_by_succeeds_iff)
  with h have "tree_find cmp' s (conv' key') = std_find_by eq' s key'"
    by (simp add: set_inv_def scan_hit_native)
  with hit show "contains_set cmp' conv' s key'"
    by (simp add: contains_set_iff)
next
  assume h: "strict_order cmp' \<and> set_inv cmp' s \<and> cmp_agrees_eq cmp' \<and> eq' (conv' key') key'
        \<and> contains_set cmp' conv' s key'"
  then have "tree_find cmp' s (conv' key') = std_find s (conv' key')"
    by (simp add: set_inv_def tree_find_eq_std_find)
  with h have "std_find_by (=) s (conv' key') \<noteq> length s"
    by (simp add: contains_set_iff std_find_def)
  then have "conv' key' \<in> set s"
    by (auto simp: std_find_by_end)
  with h have "\<exists>x \<in> set s. eq' x key'" by blast
  then have "std_find_by eq' s key' \<noteq> length s"
    by (simp add: std_find_by_end)
  then show "find_generic_by eq' s key' \<noteq> Inl ElementNotFound"
    by (simp add: find_generic_by_succeeds_iff)
qed

theorem contains_iff_find_succeeds_witness:
  "contains_set (<) long_long_to_int [1, 2, 3] 2
   \<and> find_generic_by (=) [1, 2, 3 :: int] (2 :: int) \<noteq> Inl ElementNotFound
   \<and> contains_generic (=) [1, 2, 3 :: int] (2 :: int)
   \<and> contains_vector [1, 2, 3 :: int] 2
   \<and> contains_map (<) long_long_to_int [(1, True)] 1
   \<and> find_map (<) long_long_to_int [(1, True)] 1 = Inr 0"
proof -
  have so: "strict_order ((<) :: int \<Rightarrow> int \<Rightarrow> bool)" by (rule strict_order_less_int)
  have ag: "cmp_agrees_eq ((<) :: int \<Rightarrow> int \<Rightarrow> bool)" by (rule cmp_agrees_eq_less_int)
  have inv: "set_inv (<) [1, 2, 3 :: int]" by (simp add: set_inv_def)
  have h1: "\<forall>x :: int. x = 2 \<longrightarrow> x = long_long_to_int 2"
    by (simp add: long_long_to_int_def)
  have h2: "long_long_to_int 2 = 2" by (simp add: long_long_to_int_def)
  have f2: "find_generic_by (=) [1, 2, 3 :: int] (2 :: int) = Inr 1"
    by (simp add: find_generic_by_def)
  have g2: "find_generic [1, 2, 3 :: int] 2 = Inr 1"
    by (simp add: find_generic_def std_find_def)
  have fm: "find_map (<) long_long_to_int [(1, True)] 1 = Inr 0"
    by (simp add: find_map_def map_find_def long_long_to_int_def tree_find_Cons tree_find_Nil)
  note t = contains_iff_find_succeeds [where eq = "(=)" and c = "[1, 2, 3 :: int]"
      and element = "2 :: int" and v = "[1, 2, 3 :: int]" and e = 2
      and cmp = "(<)" and conv = long_long_to_int and m = "[(1, True)]" and key = 1
      and cmp' = "(<)" and s = "[1, 2, 3 :: int]" and eq' = "(=)" and key' = "2 :: int"
      and conv' = long_long_to_int]
  from t so inv h1 f2 have cs: "contains_set (<) long_long_to_int [1, 2, 3] 2"
    by simp
  from t so inv ag h2 cs
  have fs: "find_generic_by (=) [1, 2, 3 :: int] (2 :: int) \<noteq> Inl ElementNotFound"
    by simp
  from t f2 have cg: "contains_generic (=) [1, 2, 3 :: int] (2 :: int)" by simp
  from t g2 have cv: "contains_vector [1, 2, 3 :: int] 2" by simp
  from t fm have cm: "contains_map (<) long_long_to_int [(1, True)] 1" by simp
  from cs fs cg cv cm fm show ?thesis by simp
qed

text \<open>
  C1 as stated, for every container and element, fails on a set in two ways. On a set
  ordered by absolute value (a strict weak ordering, so a \<^verbatim>\<open>Comp\<close> the library
  accepts), the set \<open>{1}\<close> contains \<open>- 1\<close> according to \<open>contains\<close>, and the throwing
  \<open>find\<close> on the same set and element throws \<open>ElementNotFound\<close>. On a set of
  \<^verbatim>\<open>int\<close> in the usual order, the set \<open>{1, 2, 3}\<close> contains the \<^verbatim>\<open>long long\<close>
  4294967298 according to \<open>contains\<close>, since \<^verbatim>\<open>count\<close> converts it to 2, and the
  throwing \<open>find\<close> compares it unconverted and throws.
\<close>

theorem contains_set_without_find_counterexample:
  "strict_weak_order (\<lambda>a b :: int. \<bar>a\<bar> < \<bar>b\<bar>)
   \<and> set_inv (\<lambda>a b :: int. \<bar>a\<bar> < \<bar>b\<bar>) [1]
   \<and> contains_set (\<lambda>a b :: int. \<bar>a\<bar> < \<bar>b\<bar>) id [1] (- 1)
   \<and> find_generic [1 :: int] (- 1) = Inl ElementNotFound
   \<and> strict_weak_order ((<) :: int \<Rightarrow> int \<Rightarrow> bool)
   \<and> cmp_agrees_eq ((<) :: int \<Rightarrow> int \<Rightarrow> bool)
   \<and> set_inv (<) [1, 2, 3 :: int]
   \<and> contains_set (<) long_long_to_int [1, 2, 3] 4294967298
   \<and> find_generic_by (=) [1, 2, 3 :: int] (4294967298 :: int) = Inl ElementNotFound"
proof -
  have a: "set_inv (\<lambda>a b :: int. \<bar>a\<bar> < \<bar>b\<bar>) [1]" by (simp add: set_inv_def)
  have b: "contains_set (\<lambda>a b :: int. \<bar>a\<bar> < \<bar>b\<bar>) id [1] (- 1)"
    by (simp add: contains_set_iff tree_find_Cons tree_find_Nil)
  have c: "find_generic [1 :: int] (- 1) = Inl ElementNotFound"
    by (simp add: find_generic_def std_find_def)
  have d: "set_inv (<) [1, 2, 3 :: int]" by (simp add: set_inv_def)
  have e: "contains_set (<) long_long_to_int [1, 2, 3] 4294967298"
    by (simp add: contains_set_iff long_long_to_int_def tree_find_Cons tree_find_Nil)
  have f: "find_generic_by (=) [1, 2, 3 :: int] (4294967298 :: int) = Inl ElementNotFound"
    by (simp add: find_generic_by_def)
  from strict_weak_order_abs_less a b c strict_weak_order_less_int cmp_agrees_eq_less_int d e f
  show ?thesis by blast
qed

subsection \<open>The overloads for map and set against the generic scan\<close>

text \<open>
  C2, as the code has it. The overloads for set and map look the converted argument up
  with \<^verbatim>\<open>Comp\<close>; the generic linear scan (over the elements of the set, or over the
  keys of the map; the first match wins) compares the unconverted argument with
  \<^verbatim>\<open>operator==\<close>. Let \<^verbatim>\<open>Comp\<close> be a strict order and let every key that compares
  equal to the argument be the converted argument (as it is when the argument has the key
  type). Then whatever the scan finds, the overloads find: \<open>contains\<close> is true when the
  scan has a match, the throwing \<open>find\<close> on a map returns the entry the scan finds, and
  the nothrow \<open>find\<close> returns the pointer stored in it. When moreover \<^verbatim>\<open>Comp\<close> holds
  two keys equivalent exactly when they are equal, and the converted argument compares
  equal to the argument, the outcomes are the same on every container: the same truth
  value, the same entry or \<open>ElementNotFound\<close> from both, the same pointer or the null
  pointer.
\<close>

theorem native_lookup_agrees_with_linear_scan:
  assumes "strict_order cmp" and "set_inv cmp s" and "map_inv cmp m" and "map_inv cmp mp"
    and "\<forall>x. eq x key \<longrightarrow> x = conv key"
  shows "(contains_generic eq s key \<longrightarrow> contains_set cmp conv s key)
       \<and> (contains_generic eq (map fst m) key \<longrightarrow> contains_map cmp conv m key)
       \<and> (find_generic_by eq (map fst m) key \<noteq> Inl ElementNotFound \<longrightarrow>
            find_map cmp conv m key = find_generic_by eq (map fst m) key)
       \<and> (find_generic_by eq (map fst mp) key = Inr it \<longrightarrow>
            find_map_nothrow cmp conv mp key = snd (mp ! it))
       \<and> (cmp_agrees_eq cmp \<and> eq (conv key) key \<longrightarrow>
            contains_set cmp conv s key = contains_generic eq s key
            \<and> contains_map cmp conv m key = contains_generic eq (map fst m) key
            \<and> find_map cmp conv m key = find_generic_by eq (map fst m) key
            \<and> find_map_nothrow cmp conv mp key =
                (case find_generic_by eq (map fst mp) key of
                   Inl ElementNotFound \<Rightarrow> NULL | Inr it \<Rightarrow> snd (mp ! it)))"
proof (intro conjI impI)
  assume "contains_generic eq s key"
  then have hit: "std_find_by eq s key \<noteq> length s" by (simp add: contains_generic_iff)
  with assms have "tree_find cmp s (conv key) = std_find_by eq s key"
    by (simp add: set_inv_def scan_hit_native)
  with hit show "contains_set cmp conv s key" by (simp add: contains_set_iff)
next
  assume "contains_generic eq (map fst m) key"
  then have hit: "std_find_by eq (map fst m) key \<noteq> length (map fst m)"
    by (simp add: contains_generic_iff)
  with assms have "tree_find cmp (map fst m) (conv key) = std_find_by eq (map fst m) key"
    by (simp add: map_inv_def scan_hit_native)
  with hit show "contains_map cmp conv m key"
    by (simp add: contains_map_iff map_find_def)
next
  assume "find_generic_by eq (map fst m) key \<noteq> Inl ElementNotFound"
  then have hit: "std_find_by eq (map fst m) key \<noteq> length (map fst m)"
    by (simp add: find_generic_by_succeeds_iff)
  with assms have "tree_find cmp (map fst m) (conv key) = std_find_by eq (map fst m) key"
    by (simp add: map_inv_def scan_hit_native)
  then show "find_map cmp conv m key = find_generic_by eq (map fst m) key"
    by (simp add: find_map_def map_find_def find_generic_by_def)
next
  assume r: "find_generic_by eq (map fst mp) key = Inr it"
  then have hit: "std_find_by eq (map fst mp) key \<noteq> length (map fst mp)"
    and it: "it = std_find_by eq (map fst mp) key"
    by (auto simp: find_generic_by_def Let_def split: if_splits)
  with assms have "tree_find cmp (map fst mp) (conv key) = it"
    by (simp add: map_inv_def scan_hit_native)
  with hit it show "find_map_nothrow cmp conv mp key = snd (mp ! it)"
    by (simp add: find_map_nothrow_def map_find_def Let_def)
next
  assume h: "cmp_agrees_eq cmp \<and> eq (conv key) key"
  with assms(5) have ex: "\<forall>x. eq x key = (x = conv key)" by blast
  have s: "tree_find cmp s (conv key) = std_find_by eq s key"
    using assms h ex by (simp add: set_inv_def scan_eq_native)
  have m: "tree_find cmp (map fst m) (conv key) = std_find_by eq (map fst m) key"
    using assms h ex by (simp add: map_inv_def scan_eq_native)
  have mp: "tree_find cmp (map fst mp) (conv key) = std_find_by eq (map fst mp) key"
    using assms h ex by (simp add: map_inv_def scan_eq_native)
  show "contains_set cmp conv s key = contains_generic eq s key"
    using s by (simp add: contains_set_iff contains_generic_iff)
  show "contains_map cmp conv m key = contains_generic eq (map fst m) key"
    using m by (simp add: contains_map_iff map_find_def contains_generic_iff)
  show "find_map cmp conv m key = find_generic_by eq (map fst m) key"
    using m by (simp add: find_map_def map_find_def find_generic_by_def)
  show "find_map_nothrow cmp conv mp key =
          (case find_generic_by eq (map fst mp) key of
             Inl ElementNotFound \<Rightarrow> NULL | Inr it \<Rightarrow> snd (mp ! it))"
    using mp by (simp add: find_map_nothrow_def map_find_def find_generic_by_def Let_def)
qed

theorem native_lookup_agrees_with_linear_scan_witness:
  "contains_set (<) long_long_to_int [1, 2, 3] 3
   \<and> contains_set (<) long_long_to_int [1, 2, 3] 3 = contains_generic (=) [1, 2, 3 :: int] (3 :: int)
   \<and> contains_map (<) long_long_to_int [(1, True), (4, False)] 4
   \<and> find_map (<) long_long_to_int [(1, True), (4, False)] 4 = Inr 1
   \<and> find_map (<) long_long_to_int [(1, True), (4, False)] 4
       = find_generic_by (=) (map fst [(1 :: int, True), (4, False)]) (4 :: int)
   \<and> find_map_nothrow (<) long_long_to_int [(1, Addr 8), (4, NULL)] 1 = Addr 8"
proof -
  have i1: "set_inv (<) [1, 2, 3 :: int]" by (simp add: set_inv_def)
  have i2: "map_inv (<) [(1 :: int, True), (4, False)]" by (simp add: map_inv_def)
  have i3: "map_inv (<) [(1 :: int, Addr 8), (4, NULL)]" by (simp add: map_inv_def)
  have h3: "\<forall>x :: int. x = 3 \<longrightarrow> x = long_long_to_int 3" by (simp add: long_long_to_int_def)
  have h4: "\<forall>x :: int. x = 4 \<longrightarrow> x = long_long_to_int 4" by (simp add: long_long_to_int_def)
  have h1: "\<forall>x :: int. x = 1 \<longrightarrow> x = long_long_to_int 1" by (simp add: long_long_to_int_def)
  have e3: "long_long_to_int 3 = 3" by (simp add: long_long_to_int_def)
  have e4: "long_long_to_int 4 = 4" by (simp add: long_long_to_int_def)
  have g3: "contains_generic (=) [1, 2, 3 :: int] (3 :: int)"
    by (simp add: contains_generic_iff)
  have g4: "contains_generic (=) (map fst [(1 :: int, True), (4, False)]) (4 :: int)"
    by (simp add: contains_generic_iff)
  have f4: "find_generic_by (=) (map fst [(1 :: int, True), (4, False)]) (4 :: int) = Inr 1"
    by (simp add: find_generic_by_def)
  have f1: "find_generic_by (=) (map fst [(1 :: int, Addr 8), (4, NULL)]) (1 :: int) = Inr 0"
    by (simp add: find_generic_by_def)
  note t3 = native_lookup_agrees_with_linear_scan
    [where cmp = "(<)" and s = "[1, 2, 3 :: int]" and m = "[(1 :: int, True), (4, False)]"
       and mp = "[(1 :: int, Addr 8), (4, NULL)]" and eq = "(=)" and key = "3 :: int"
       and conv = long_long_to_int and it = 0, OF strict_order_less_int i1 i2 i3 h3]
  note t4 = native_lookup_agrees_with_linear_scan
    [where cmp = "(<)" and s = "[1, 2, 3 :: int]" and m = "[(1 :: int, True), (4, False)]"
       and mp = "[(1 :: int, Addr 8), (4, NULL)]" and eq = "(=)" and key = "4 :: int"
       and conv = long_long_to_int and it = 0, OF strict_order_less_int i1 i2 i3 h4]
  note t1 = native_lookup_agrees_with_linear_scan
    [where cmp = "(<)" and s = "[1, 2, 3 :: int]" and m = "[(1 :: int, True), (4, False)]"
       and mp = "[(1 :: int, Addr 8), (4, NULL)]" and eq = "(=)" and key = "1 :: int"
       and conv = long_long_to_int and it = 0, OF strict_order_less_int i1 i2 i3 h1]
  from t3 g3 have a: "contains_set (<) long_long_to_int [1, 2, 3] 3" by simp
  from t3 cmp_agrees_eq_less_int e3
  have b: "contains_set (<) long_long_to_int [1, 2, 3] 3
           = contains_generic (=) [1, 2, 3 :: int] (3 :: int)"
    by simp
  from t4 g4 have c: "contains_map (<) long_long_to_int [(1, True), (4, False)] 4" by simp
  from t4 cmp_agrees_eq_less_int e4
  have d: "find_map (<) long_long_to_int [(1, True), (4, False)] 4
           = find_generic_by (=) (map fst [(1 :: int, True), (4, False)]) (4 :: int)"
    by simp
  from d f4 have d': "find_map (<) long_long_to_int [(1, True), (4, False)] 4 = Inr 1" by simp
  from t1 f1 have e: "find_map_nothrow (<) long_long_to_int [(1, Addr 8), (4, NULL)] 1
           = snd ([(1 :: int, Addr 8), (4, NULL)] ! 0)"
    by simp
  then have e': "find_map_nothrow (<) long_long_to_int [(1, Addr 8), (4, NULL)] 1 = Addr 8"
    by simp
  from a b c d' d e' show ?thesis by simp
qed

text \<open>
  C2 as stated, for every input container and lookup argument, fails in two ways. When
  \<^verbatim>\<open>Comp\<close> is coarser than equality: under the order by absolute value, a strict weak
  ordering, \<open>contains\<close> on the set \<open>{2, 5}\<close> finds \<open>- 5\<close>, which the linear scan does
  not, and \<open>find\<close> on a map with the key \<open>3\<close> returns its entry for the key \<open>- 3\<close>,
  for which the linear scan over the keys throws. When the argument is converted: on a
  map of \<^verbatim>\<open>int\<close> keys \<open>{1, 4}\<close> in the usual order, \<open>contains\<close> finds the
  \<^verbatim>\<open>long long\<close> 4294967297 and \<open>find\<close> returns the entry of the key \<open>1\<close>, while
  the linear scan over the keys has no match.
\<close>

theorem native_lookup_differs_counterexample:
  "strict_weak_order (\<lambda>a b :: int. \<bar>a\<bar> < \<bar>b\<bar>)
   \<and> set_inv (\<lambda>a b :: int. \<bar>a\<bar> < \<bar>b\<bar>) [2, 5]
   \<and> contains_set (\<lambda>a b :: int. \<bar>a\<bar> < \<bar>b\<bar>) id [2, 5] (- 5)
   \<and> \<not> contains_generic (=) [2, 5 :: int] (- 5 :: int)
   \<and> map_inv (\<lambda>a b :: int. \<bar>a\<bar> < \<bar>b\<bar>) [(3, True)]
   \<and> find_map (\<lambda>a b :: int. \<bar>a\<bar> < \<bar>b\<bar>) id [(3, True)] (- 3) = Inr 0
   \<and> find_generic_by (=) (map fst [(3 :: int, True)]) (- 3 :: int) = Inl ElementNotFound
   \<and> strict_weak_order ((<) :: int \<Rightarrow> int \<Rightarrow> bool)
   \<and> cmp_agrees_eq ((<) :: int \<Rightarrow> int \<Rightarrow> bool)
   \<and> map_inv (<) [(1 :: int, True), (4, False)]
   \<and> contains_map (<) long_long_to_int [(1, True), (4, False)] 4294967297
   \<and> find_map (<) long_long_to_int [(1, True), (4, False)] 4294967297 = Inr 0
   \<and> \<not> contains_generic (=) (map fst [(1 :: int, True), (4, False)]) (4294967297 :: int)
   \<and> find_generic_by (=) (map fst [(1 :: int, True), (4, False)]) (4294967297 :: int)
       = Inl ElementNotFound"
proof -
  have a: "set_inv (\<lambda>a b :: int. \<bar>a\<bar> < \<bar>b\<bar>) [2, 5]"
    by (simp add: set_inv_def)
  have b: "contains_set (\<lambda>a b :: int. \<bar>a\<bar> < \<bar>b\<bar>) id [2, 5] (- 5)"
    by (simp add: contains_set_iff tree_find_Cons tree_find_Nil)
  have c: "\<not> contains_generic (=) [2, 5 :: int] (- 5 :: int)"
    by (simp add: contains_generic_iff)
  have d: "map_inv (\<lambda>a b :: int. \<bar>a\<bar> < \<bar>b\<bar>) [(3, True)]"
    by (simp add: map_inv_def)
  have e: "find_map (\<lambda>a b :: int. \<bar>a\<bar> < \<bar>b\<bar>) id [(3, True)] (- 3) = Inr 0"
    by (simp add: find_map_def map_find_def tree_find_Cons tree_find_Nil)
  have f: "find_generic_by (=) (map fst [(3 :: int, True)]) (- 3 :: int) = Inl ElementNotFound"
    by (simp add: find_generic_by_def)
  have g: "map_inv (<) [(1 :: int, True), (4, False)]" by (simp add: map_inv_def)
  have h: "contains_map (<) long_long_to_int [(1, True), (4, False)] 4294967297"
    by (simp add: contains_map_iff map_find_def long_long_to_int_def tree_find_Cons tree_find_Nil)
  have i: "find_map (<) long_long_to_int [(1, True), (4, False)] 4294967297 = Inr 0"
    by (simp add: find_map_def map_find_def long_long_to_int_def tree_find_Cons tree_find_Nil)
  have j: "\<not> contains_generic (=) (map fst [(1 :: int, True), (4, False)]) (4294967297 :: int)"
    by (simp add: contains_generic_iff)
  have k: "find_generic_by (=) (map fst [(1 :: int, True), (4, False)]) (4294967297 :: int)
       = Inl ElementNotFound"
    by (simp add: find_generic_by_def)
  from strict_weak_order_abs_less a b c d e f
    strict_weak_order_less_int cmp_agrees_eq_less_int g h i j k
  show ?thesis by blast
qed

subsection \<open>The throwing find\<close>

text \<open>
  C3. The throwing \<open>find\<close> scans the container from the start, comparing each element
  with the target for equality. When some element equals the target, it returns the
  reference to the first such element: the position is inside the container, the element
  there is the target, and no earlier element is. When no element equals the target, it
  throws \<open>ElementNotFound\<close>.
\<close>

theorem find_generic_first_match:
  "(element \<in> set c \<longrightarrow>
      (\<exists>it. find_generic c element = Inr it \<and> it < length c \<and> c ! it = element
            \<and> (\<forall>j < it. c ! j \<noteq> element)))
   \<and> (element \<notin> set c \<longrightarrow> find_generic c element = Inl ElementNotFound)"
proof (intro conjI impI)
  assume mem: "element \<in> set c"
  let ?it = "std_find c element"
  have "?it \<noteq> length c"
    using mem by (auto simp: std_find_def std_find_by_end)
  moreover have "?it \<le> length c" by (simp add: std_find_def std_find_by_le)
  ultimately have lt: "?it < length c" by simp
  then have hit: "c ! ?it = element"
    using std_find_by_hit [of "(=)" c element] by (simp add: std_find_def)
  have first: "\<forall>j < ?it. c ! j \<noteq> element"
    using std_find_by_first [of _ "(=)" c element] by (simp add: std_find_def)
  have "find_generic c element = Inr ?it"
    using lt by (simp add: find_generic_def Let_def)
  with lt hit first
  show "\<exists>it. find_generic c element = Inr it \<and> it < length c \<and> c ! it = element
            \<and> (\<forall>j < it. c ! j \<noteq> element)"
    by blast
next
  assume "element \<notin> set c"
  then have "std_find c element = length c"
    by (auto simp: std_find_def std_find_by_end)
  then show "find_generic c element = Inl ElementNotFound"
    by (simp add: find_generic_def)
qed

theorem find_generic_first_match_witness:
  "find_generic [1, 2, 3, 2 :: int] 2 = Inr 1
   \<and> [1, 2, 3, 2 :: int] ! 1 = 2
   \<and> find_generic [1, 2, 3 :: int] 9 = Inl ElementNotFound"
proof -
  have a: "(2::int) \<in> set [1, 2, 3, 2]" by simp
  have b: "(9::int) \<notin> set [1, 2, 3]" by simp
  from a find_generic_first_match [of 2 "[1, 2, 3, 2 :: int]"]
  obtain it where it: "find_generic [1, 2, 3, 2 :: int] 2 = Inr it" "it < 4"
    "[1, 2, 3, 2 :: int] ! it = 2" "\<forall>j < it. [1, 2, 3, 2 :: int] ! j \<noteq> 2"
    by auto
  have "it = 1"
  proof (rule ccontr)
    assume "it \<noteq> 1"
    then have "it = 0 \<or> 1 < it" by arith
    then show False
    proof
      assume "it = 0" with it(3) show False by simp
    next
      assume "1 < it" with it(4) have "[1, 2, 3, 2 :: int] ! 1 \<noteq> 2" by blast
      then show False by simp
    qed
  qed
  with it(1) have c1: "find_generic [1, 2, 3, 2 :: int] 2 = Inr 1" by simp
  from b find_generic_first_match [of 9 "[1, 2, 3 :: int]"]
  have c3: "find_generic [1, 2, 3 :: int] 9 = Inl ElementNotFound" by blast
  from c1 c3 show ?thesis by simp
qed

subsection \<open>The nothrow find\<close>

text \<open>
  C4, what the code does. The generic nothrow \<open>find\<close> never throws. It returns the null
  pointer when no element matches the target. When some element matches, it returns the
  first matching element itself (\<^verbatim>\<open>return *it;\<close>), which is a pointer stored in the
  container, and not the address of that element (\<^verbatim>\<open>&*it\<close>). For a container of
  \<^verbatim>\<open>Element\<close>, such as a vector of integers searched for an integer, the body does
  not compile.
\<close>

theorem find_nothrow_returns_stored_pointer:
  "((\<forall>x \<in> set c. \<not> eq x element) \<longrightarrow> find_nothrow eq c element = NULL)
   \<and> ((\<exists>x \<in> set c. eq x element) \<longrightarrow>
        (\<exists>it. it < length c \<and> find_nothrow eq c element = c ! it \<and> eq (c ! it) element
              \<and> (\<forall>j < it. \<not> eq (c ! j) element)))"
proof (intro conjI impI)
  assume "\<forall>x \<in> set c. \<not> eq x element"
  then have "std_find_by eq c element = length c" by (simp add: std_find_by_end)
  then show "find_nothrow eq c element = NULL" by (simp add: find_nothrow_def)
next
  assume "\<exists>x \<in> set c. eq x element"
  let ?it = "std_find_by eq c element"
  from \<open>\<exists>x \<in> set c. eq x element\<close> have "?it \<noteq> length c" by (simp add: std_find_by_end)
  with std_find_by_le [of eq c element] have lt: "?it < length c" by simp
  then have "find_nothrow eq c element = c ! ?it" by (simp add: find_nothrow_def Let_def)
  moreover have "eq (c ! ?it) element" using lt by (rule std_find_by_hit)
  moreover have "\<forall>j < ?it. \<not> eq (c ! j) element" by (simp add: std_find_by_first)
  ultimately show "\<exists>it. it < length c \<and> find_nothrow eq c element = c ! it
      \<and> eq (c ! it) element \<and> (\<forall>j < it. \<not> eq (c ! j) element)"
    using lt by blast
qed

theorem find_nothrow_returns_stored_pointer_witness:
  "find_nothrow (\<lambda>p a. p = Addr a) [Addr 10, Addr 20] 30 = NULL
   \<and> find_nothrow (\<lambda>p a. p = Addr a) [Addr 10, Addr 20] 20 = Addr 20"
proof -
  have none: "\<forall>x \<in> set [Addr 10, Addr 20]. \<not> x = Addr 30" by simp
  from find_nothrow_returns_stored_pointer
    [where eq = "\<lambda>p a. p = Addr a" and c = "[Addr 10, Addr 20]" and element = 30] none
  have a: "find_nothrow (\<lambda>p a. p = Addr a) [Addr 10, Addr 20] 30 = NULL" by simp
  have b: "find_nothrow (\<lambda>p a. p = Addr a) [Addr 10, Addr 20] 20 = Addr 20"
    by (simp add: find_nothrow_def)
  from a b show ?thesis by simp
qed

subsection \<open>Appending to a sequence\<close>

text \<open>
  C5. For a vector or a list, \<open>insert_into\<close> appends at the end: the traversal after the
  call is the traversal before it followed by the new element. This holds whether or not
  the element is already there, so duplicates are kept: the length always grows by one
  and the element occurs once more than before.
\<close>

theorem insert_into_appends_last:
  "insert_into cont element = cont @ [element]
   \<and> length (insert_into cont element) = Suc (length cont)
   \<and> last (insert_into cont element) = element
   \<and> butlast (insert_into cont element) = cont
   \<and> count_list (insert_into cont element) element = Suc (count_list cont element)"
  by (simp add: insert_into_def push_back_def)

subsection \<open>Inserting into a set\<close>

text \<open>
  C6. For a set (keys strictly increasing under a strict order \<^verbatim>\<open>Comp\<close>),
  \<open>insert_into\<close> returns a set and never throws. The element has the set's key type
  (\<^verbatim>\<open>ElementType\<close> in both parameters), so \<open>contains\<close> converts nothing. When the set already contains the
  element (it is one of the set's elements, or \<open>contains\<close> finds it), the set is left
  exactly as it was, so its size does not grow. When the set does not contain the element,
  the size grows by one and the elements are the old ones and the new one. In both cases
  the result contains the element and is again strictly increasing.
\<close>

theorem insert_into_set_existing_or_fresh:
  assumes "strict_order cmp" and "set_inv cmp cont"
  shows "(contains_set cmp id cont element \<longrightarrow>
            insert_into_set cmp cont element = cont
            \<and> length (insert_into_set cmp cont element) = length cont)
       \<and> (element \<in> set cont \<longrightarrow> insert_into_set cmp cont element = cont)
       \<and> (\<not> contains_set cmp id cont element \<longrightarrow>
            length (insert_into_set cmp cont element) = Suc (length cont)
            \<and> set (insert_into_set cmp cont element) = insert element (set cont))
       \<and> contains_set cmp id (insert_into_set cmp cont element) element
       \<and> set_inv cmp (insert_into_set cmp cont element)"
proof (intro conjI impI)
  assume "contains_set cmp id cont element"
  then have found: "tree_find cmp cont element \<noteq> length cont"
    by (simp add: contains_set_iff)
  then show same: "insert_into_set cmp cont element = cont"
    using assms(1) by (simp add: insert_into_set_def set_insert_found)
  then show "length (insert_into_set cmp cont element) = length cont" by simp
next
  assume mem: "element \<in> set cont"
  have "\<not> cmp element element"
    using assms(1) by (simp add: strict_order_def irreflp_def)
  then have "equivalent cmp element element" by (simp add: equivalent_def)
  with mem have "\<exists>x \<in> set cont. equivalent cmp x element" by blast
  then have "tree_find cmp cont element < length cont"
    using assms by (simp add: set_inv_def tree_find_found_iff)
  then show "insert_into_set cmp cont element = cont"
    using assms(1) by (simp add: insert_into_set_def set_insert_found)
next
  assume "\<not> contains_set cmp id cont element"
  then have fresh: "tree_find cmp cont element = length cont"
    by (simp add: contains_set_iff)
  then show "length (insert_into_set cmp cont element) = Suc (length cont)"
    using assms(1) by (simp add: insert_into_set_def set_insert_fresh_length)
  from fresh show "set (insert_into_set cmp cont element) = insert element (set cont)"
    using assms(1) by (simp add: insert_into_set_def set_insert_fresh_set)
next
  show "contains_set cmp id (insert_into_set cmp cont element) element"
    using set_insert_then_found [OF assms(1), of cont element]
    by (simp add: contains_set_iff insert_into_set_def)
next
  show "set_inv cmp (insert_into_set cmp cont element)"
    using assms by (simp add: set_inv_def insert_into_set_def set_insert_sorted)
qed

theorem insert_into_set_existing_or_fresh_witness:
  "contains_set (<) id [1, 2 :: int] 2
   \<and> insert_into_set (<) [1, 2 :: int] 2 = [1, 2]
   \<and> \<not> contains_set (<) id [1, 2 :: int] 3
   \<and> insert_into_set (<) [1, 2 :: int] 3 = [1, 2, 3]
   \<and> length (insert_into_set (<) [1, 2 :: int] 3) = Suc (length [1, 2 :: int])
   \<and> set_inv (<) (insert_into_set (<) [1, 2 :: int] 3)"
proof -
  have inv: "set_inv (<) [1, 2 :: int]" by (simp add: set_inv_def)
  have c2: "contains_set (<) id [1, 2 :: int] 2"
    by (simp add: contains_set_iff tree_find_Cons)
  have c3: "\<not> contains_set (<) id [1, 2 :: int] 3"
    by (simp add: contains_set_iff tree_find_Cons tree_find_Nil)
  have e3: "insert_into_set (<) [1, 2 :: int] 3 = [1, 2, 3]"
    by (simp add: insert_into_set_def)
  from insert_into_set_existing_or_fresh [OF strict_order_less_int inv, of 2] c2
  have r2: "insert_into_set (<) [1, 2 :: int] 2 = [1, 2]" by blast
  from insert_into_set_existing_or_fresh [OF strict_order_less_int inv, of 3] c3
  have r3: "length (insert_into_set (<) [1, 2 :: int] 3) = Suc (length [1, 2 :: int])"
    and i3: "set_inv (<) (insert_into_set (<) [1, 2 :: int] 3)" by blast+
  from c2 r2 c3 e3 r3 i3 show ?thesis by blast
qed

subsection \<open>The container adapter\<close>

text \<open>
  C7, the part the code provides. For an adapter bound to a vector or a list,
  \<open>insert\<close> appends the element and returns the reference to the new last element: the
  returned position is the last one of the container after the call, and the element
  there is the inserted one. The adapter calls \<^verbatim>\<open>container.back()\<close>, which a set does
  not have, so it cannot be bound to a set.
\<close>

theorem ContainerAdapterImpl_insert_returns_last:
  "ContainerAdapterImpl_insert container element = (container @ [element], length container)
   \<and> fst (ContainerAdapterImpl_insert container element)
       ! snd (ContainerAdapterImpl_insert container element) = element
   \<and> Suc (snd (ContainerAdapterImpl_insert container element))
       = length (fst (ContainerAdapterImpl_insert container element))"
  by (simp add: ContainerAdapterImpl_insert_def insert_into_def push_back_def
      container_back_def Let_def)

subsection \<open>Copying a container\<close>

text \<open>
  C8. \<open>copy_container\<close> walks the source from its start to its end and appends every
  element to the destination, which is not cleared first: the destination afterwards is
  its old content followed by the source's traversal, the same as inserting the elements
  one by one with \<open>insert_into\<close>. When the destination starts empty, its traversal
  afterwards is the source's. The destination is a container with \<^verbatim>\<open>push_back\<close> (a
  vector or a list), which \<^verbatim>\<open>std::back_insert_iterator\<close> needs; the source is any
  container, given by its traversal.
\<close>

theorem copy_container_appends_source:
  "copy_container c1 c2 = c2 @ c1
   \<and> copy_container c1 c2 = foldl insert_into c2 c1
   \<and> copy_container c1 [] = c1"
proof -
  have "foldl insert_into c2 c1 = c2 @ c1"
    by (induction c1 arbitrary: c2) (simp_all add: insert_into_def push_back_def)
  then show ?thesis
    by (simp add: copy_container_def std_copy_back_insert_append)
qed

subsection \<open>Exhaustion of an autonomous iterator\<close>

text \<open>
  C9. An iterator built over an empty range (start equal to end) is at its end at once;
  one built over any other range is not. After \<open>k\<close> increments the current position
  is the start plus \<open>k\<close> and the end position is unchanged, so over a range of length
  \<open>n\<close> the iterator is at its end after \<open>k\<close> increments exactly when \<open>k = n\<close>:
  after exactly \<open>n\<close> steps, and at no step before. The postfix increment leaves the
  iterator as the prefix one does.
\<close>

theorem iterator_end_after_increments:
  "iterator_end (AutonomousIterator_init p p)
   \<and> iterator_end (AutonomousIterator_init b e) = (b = e)
   \<and> it_current ((pre_increment ^^ k) (AutonomousIterator_init b e)) = b + int k
   \<and> it_end ((pre_increment ^^ k) (AutonomousIterator_init b e)) = e
   \<and> iterator_end ((pre_increment ^^ k) (AutonomousIterator_init b (b + int n))) = (k = n)
   \<and> snd (post_increment it) = pre_increment it"
  by (simp add: funpow_pre_increment iterator_end_def AutonomousIterator_init_def
      post_increment_def)

subsection \<open>The nothrow find on a map of pointers\<close>

text \<open>
  C10. The nothrow \<open>find\<close> on a map exists only for maps whose mapped values are
  pointers (\<^verbatim>\<open>std::map<Key, T*, Comp, Alloc>\<close>), which is the type of
  \<open>find_map_nothrow\<close>. For a key of the map (the lookup argument, converted to the key
  type) it returns the pointer stored under the key. So when the null pointer is stored
  under the key, it returns the null pointer although \<open>contains\<close> finds the key; and it
  returns the null pointer as well when the key is not in the map: the two cases give the
  same result.
\<close>

theorem find_map_nothrow_null_value:
  assumes "strict_order cmp" and "map_inv cmp m"
  shows "((conv key, p) \<in> set m \<longrightarrow>
            contains_map cmp conv m key \<and> find_map_nothrow cmp conv m key = p)
       \<and> ((conv key, NULL) \<in> set m \<longrightarrow>
            contains_map cmp conv m key \<and> find_map_nothrow cmp conv m key = NULL)
       \<and> (\<not> contains_map cmp conv m key \<longrightarrow> find_map_nothrow cmp conv m key = NULL)"
proof -
  have stored: "contains_map cmp conv m key \<and> find_map_nothrow cmp conv m key = q"
    if "(conv key, q) \<in> set m" for q
  proof -
    from map_find_entry [OF assms(1), of m "conv key" q] assms(2) that
    have "map_find cmp m (conv key) < length m" and "m ! map_find cmp m (conv key) = (conv key, q)"
      by (simp_all add: map_inv_def)
    then show ?thesis
      by (simp add: contains_map_iff find_map_nothrow_def Let_def)
  qed
  have absent: "find_map_nothrow cmp conv m key = NULL" if "\<not> contains_map cmp conv m key"
    using that by (simp add: contains_map_iff find_map_nothrow_def)
  from stored absent show ?thesis by blast
qed

theorem find_map_nothrow_null_value_witness:
  "contains_map (<) id [(1 :: int, NULL), (2, Addr 5)] 1
   \<and> find_map_nothrow (<) id [(1 :: int, NULL), (2, Addr 5)] 1 = NULL
   \<and> find_map_nothrow (<) id [(1 :: int, NULL), (2, Addr 5)] 2 = Addr 5
   \<and> \<not> contains_map (<) id [(2 :: int, Addr 5)] 1
   \<and> find_map_nothrow (<) id [(2 :: int, Addr 5)] 1 = NULL"
proof -
  have i1: "map_inv (<) [(1 :: int, NULL), (2, Addr 5)]" by (simp add: map_inv_def)
  have i2: "map_inv (<) [(2 :: int, Addr 5)]" by (simp add: map_inv_def)
  have m1: "(id (1 :: int), NULL) \<in> set [(1, NULL), (2, Addr 5)]" by simp
  have m2: "(id (2 :: int), Addr 5) \<in> set [(1, NULL), (2, Addr 5)]" by simp
  have n1: "\<not> contains_map (<) id [(2 :: int, Addr 5)] 1"
    by (simp add: contains_map_iff map_find_def tree_find_Cons)
  from find_map_nothrow_null_value
    [OF strict_order_less_int i1, where conv = id and key = 1 and p = NULL] m1
  have a: "contains_map (<) id [(1 :: int, NULL), (2, Addr 5)] 1
           \<and> find_map_nothrow (<) id [(1 :: int, NULL), (2, Addr 5)] 1 = NULL"
    by blast
  from find_map_nothrow_null_value
    [OF strict_order_less_int i1, where conv = id and key = 2 and p = "Addr 5"] m2
  have b: "find_map_nothrow (<) id [(1 :: int, NULL), (2, Addr 5)] 2 = Addr 5"
    by blast
  from find_map_nothrow_null_value
    [OF strict_order_less_int i2, where conv = id and key = 1 and p = NULL] n1
  have c: "find_map_nothrow (<) id [(2 :: int, Addr 5)] 1 = NULL"
    by blast
  from a b n1 c show ?thesis by simp
qed

end
